theory Spec2Isabelle
  imports Main "HOL-Library.Word"
begin

section \<open>The Zumo finite state machine sketch\<close>

text \<open>
  A shallow embedding of the sketch with the seven states (the file with
  \<^verbatim>\<open>TurnLeft\<close> and \<^verbatim>\<open>TurnRight\<close>). The globals of the sketch are the fields of
  the record \<open>Robot\<close>; every function of the sketch takes the record and returns
  the updated one. What the hardware libraries deliver during one pass of
  \<^verbatim>\<open>loop()\<close> is the record \<open>Readings\<close>. Calls that leave the sketch (motor
  commands, delays, sensor polls) and the assignments to \<^verbatim>\<open>zumoEvent\<close> are
  appended, in program order, to the field \<open>effects\<close>. The serial prints and
  \<^verbatim>\<open>pinMode\<close> are left out, and so is \<^verbatim>\<open>otteTal\<close>, which is called
  only from commented-out code.
\<close>

subsection \<open>Enumerations and macros\<close>

text \<open>The constant \<^verbatim>\<open>None\<close> of \<^verbatim>\<open>enum Events\<close> is written \<open>NoneEv\<close>.\<close>

datatype States = Start | Idle | Search | Chase | BackUp | TurnLeft | TurnRight

datatype Events = NoneEv | OnButtonPress | On5SecondsPassed | OnFind | OnEdge
  | OnSafe | OnLost | OnLeft | OnRight

definition SONAR_THRESHOLD :: int where
  "SONAR_THRESHOLD = 30"

definition NUM_SENSORS :: nat where
  "NUM_SENSORS = 4"

definition QTRTHRESHOLD :: "16 word" where
  "QTRTHRESHOLD = 300"

definition REVERSE_SPEED :: int where
  "REVERSE_SPEED = 400"

definition TURN_SPEED :: int where
  "TURN_SPEED = 300"

definition FORWARD_SPEED :: int where
  "FORWARD_SPEED = 400"

definition SEARCH_SPEED :: int where
  "SEARCH_SPEED = 200"

definition REVERSE_DURATION :: nat where
  "REVERSE_DURATION = 200"

definition TURN_DURATION :: nat where
  "TURN_DURATION = 300"

lemmas macros = SONAR_THRESHOLD_def NUM_SENSORS_def QTRTHRESHOLD_def
  REVERSE_SPEED_def TURN_SPEED_def FORWARD_SPEED_def SEARCH_SPEED_def
  REVERSE_DURATION_def TURN_DURATION_def

subsection \<open>Globals, readings and effects\<close>

datatype Effect = ReadButton | ReadQTR | PingFront | PingLeft | PingRight
  | SetSpeeds int int | Delay nat | Emit Events

text \<open>
  \<^verbatim>\<open>unsigned int\<close> is 16 bits wide on the board, \<^verbatim>\<open>unsigned long\<close> (the
  type of \<^verbatim>\<open>millis()\<close>) 32 bits and \<^verbatim>\<open>unsigned long long\<close> 64 bits. The range
  variables are \<^verbatim>\<open>int\<close>; the sketch only compares them, so they are
  integers here. \<open>motors\<close> is the pair last handed to
  \<^verbatim>\<open>motors.setSpeeds\<close>, and \<open>(0, 0)\<close> before the first command.
\<close>

record Robot =
  zumoState :: States
  zumoEvent :: Events
  pingRead :: int
  pingReadLeft :: int
  pingReadRight :: int
  sensorValues :: "16 word list"
  startIdleTimer :: bool
  stopIdleTimer :: bool
  idleTimer :: "64 word"
  otteTalsTimer :: "64 word"
  motors :: "int \<times> int"
  effects :: "Effect list"

text \<open>
  One pass of \<^verbatim>\<open>loop()\<close> reads: the value of
  \<^verbatim>\<open>button.getSingleDebouncedPress()\<close>; the value that \<^verbatim>\<open>qtrrc.read\<close>
  stores for each channel; the value of
  \<^verbatim>\<open>ping_median(3) / US_ROUNDTRIP_CM\<close> converted to \<^verbatim>\<open>int\<close> for each of the
  three sonars; and the two values of \<^verbatim>\<open>millis()\<close> that \<^verbatim>\<open>idle()\<close> can
  read, first when it arms the timer, then inside \<^verbatim>\<open>updateIdle()\<close>.
\<close>

record Readings =
  btnPress :: bool
  qtrRead :: "nat \<Rightarrow> 16 word"
  sonarCm :: int
  sonarLeftCm :: int
  sonarRightCm :: int
  millisArm :: "32 word"
  millisNow :: "32 word"

definition logEffect :: "Effect \<Rightarrow> Robot \<Rightarrow> Robot" where
  "logEffect fx s = s\<lparr>effects := effects s @ [fx]\<rparr>"

text \<open>The statement \<^verbatim>\<open>zumoEvent = e;\<close>.\<close>

definition setEvent :: "Events \<Rightarrow> Robot \<Rightarrow> Robot" where
  "setEvent e s = logEffect (Emit e) (s\<lparr>zumoEvent := e\<rparr>)"

text \<open>\<^verbatim>\<open>motors.setSpeeds(l, r)\<close> and \<^verbatim>\<open>delay(ms)\<close>.\<close>

definition setSpeeds :: "int \<Rightarrow> int \<Rightarrow> Robot \<Rightarrow> Robot" where
  "setSpeeds l r s = logEffect (SetSpeeds l r) (s\<lparr>motors := (l, r)\<rparr>)"

definition delay :: "nat \<Rightarrow> Robot \<Rightarrow> Robot" where
  "delay ms s = logEffect (Delay ms) s"

subsection \<open>Sensor wrappers\<close>

definition buttonUpdate :: "Readings \<Rightarrow> Robot \<Rightarrow> bool \<times> Robot" where
  "buttonUpdate r s = (btnPress r, logEffect ReadButton s)"

definition sonarUpdate :: "Readings \<Rightarrow> Robot \<Rightarrow> int \<times> Robot" where
  "sonarUpdate r s =
     (let s1 = logEffect PingFront (s\<lparr>pingRead := sonarCm r\<rparr>) in (pingRead s1, s1))"

definition sonarUpdateLeft :: "Readings \<Rightarrow> Robot \<Rightarrow> int \<times> Robot" where
  "sonarUpdateLeft r s =
     (let s1 = logEffect PingLeft (s\<lparr>pingReadLeft := sonarLeftCm r\<rparr>)
      in (pingReadLeft s1, s1))"

definition sonarUpdateRight :: "Readings \<Rightarrow> Robot \<Rightarrow> int \<times> Robot" where
  "sonarUpdateRight r s =
     (let s1 = logEffect PingRight (s\<lparr>pingReadRight := sonarRightCm r\<rparr>)
      in (pingReadRight s1, s1))"

text \<open>
  The \<^verbatim>\<open>for\<close> loop of \<^verbatim>\<open>QTRUpdate\<close>, started at \<open>i\<close>: the first index whose
  value is below the threshold, or \<open>-1\<close>.
\<close>

function QTRScan :: "16 word list \<Rightarrow> nat \<Rightarrow> int" where
  "QTRScan vs i =
     (if i < NUM_SENSORS
      then (if vs ! i < QTRTHRESHOLD then int i else QTRScan vs (i + 1))
      else - 1)"
  by pat_completeness auto
termination
  by (relation "measure (\<lambda>(vs, i). NUM_SENSORS - i)") auto

declare QTRScan.simps [simp del]

definition QTRUpdate :: "Readings \<Rightarrow> Robot \<Rightarrow> int \<times> Robot" where
  "QTRUpdate r s =
     (let s1 = logEffect ReadQTR (s\<lparr>sensorValues := map (qtrRead r) [0..<NUM_SENSORS]\<rparr>)
      in (QTRScan (sensorValues s1) 0, s1))"

subsection \<open>The state machine\<close>

definition updateState :: "Robot \<Rightarrow> Robot" where
  "updateState s =
     (case zumoEvent s of
        NoneEv \<Rightarrow> s
      | OnButtonPress \<Rightarrow>
          (if zumoState s = Start then s\<lparr>zumoState := Idle\<rparr> else s)
      | On5SecondsPassed \<Rightarrow>
          (if zumoState s = Idle then s\<lparr>zumoState := Search\<rparr> else s)
      | OnFind \<Rightarrow>
          (let s1 = (if zumoState s = Search then s\<lparr>zumoState := Chase\<rparr> else s);
               s2 = (if zumoState s1 = TurnLeft then s1\<lparr>zumoState := Chase\<rparr> else s1)
           in (if zumoState s2 = TurnRight then s2\<lparr>zumoState := Chase\<rparr> else s2))
      | OnEdge \<Rightarrow>
          (let s1 = (if zumoState s = Search then s\<lparr>zumoState := BackUp\<rparr> else s);
               s2 = (if zumoState s1 = Chase then s1\<lparr>zumoState := BackUp\<rparr> else s1);
               s3 = (if zumoState s2 = TurnLeft then s2\<lparr>zumoState := BackUp\<rparr> else s2)
           in (if zumoState s3 = TurnRight then s3\<lparr>zumoState := BackUp\<rparr> else s3))
      | OnSafe \<Rightarrow>
          (if zumoState s = BackUp then s\<lparr>zumoState := Search\<rparr> else s)
      | OnLost \<Rightarrow>
          (if zumoState s = Chase then s\<lparr>zumoState := Search\<rparr> else s)
      | OnLeft \<Rightarrow>
          (if zumoState s = Search then s\<lparr>zumoState := TurnLeft\<rparr> else s)
      | OnRight \<Rightarrow>
          (if zumoState s = Search then s\<lparr>zumoState := TurnRight\<rparr> else s))"

text \<open>The body of \<^verbatim>\<open>updateEvent\<close> is empty.\<close>

definition updateEvent :: "Robot \<Rightarrow> Robot" where
  "updateEvent s = s"

subsection \<open>Timers and initialisation\<close>

text \<open>
  \<^verbatim>\<open>millis()\<close> is widened to 64 bits for the comparison; the sum
  \<^verbatim>\<open>idleTimer + 5000\<close> is a 64-bit sum.
\<close>

definition updateIdle :: "32 word \<Rightarrow> Robot \<Rightarrow> bool \<times> Robot" where
  "updateIdle now s =
     (if startIdleTimer s \<and> idleTimer s + 5000 \<le> ucast now \<and> \<not> stopIdleTimer s
      then (True, s\<lparr>stopIdleTimer := True\<rparr>)
      else (False, s))"

text \<open>The values the globals have before \<^verbatim>\<open>setup()\<close> runs.\<close>

definition boot :: Robot where
  "boot = \<lparr>zumoState = Start, zumoEvent = NoneEv, pingRead = 0, pingReadLeft = 0,
     pingReadRight = 0, sensorValues = replicate NUM_SENSORS 0,
     startIdleTimer = False, stopIdleTimer = False, idleTimer = 0,
     otteTalsTimer = 0, motors = (0, 0), effects = []\<rparr>"

text \<open>\<open>t1\<close> and \<open>t2\<close> are the two values of \<^verbatim>\<open>millis()\<close> that it reads.\<close>

definition initialize :: "32 word \<Rightarrow> 32 word \<Rightarrow> Robot \<Rightarrow> Robot" where
  "initialize t1 t2 s =
     s\<lparr>zumoState := Start, zumoEvent := NoneEv, idleTimer := ucast t1,
       otteTalsTimer := ucast t2\<rparr>"

text \<open>\<^verbatim>\<open>setup()\<close>, run on the globals as they are at power-on.\<close>

definition setupSketch :: "32 word \<Rightarrow> 32 word \<Rightarrow> Robot" where
  "setupSketch t1 t2 = initialize t1 t2 boot"

subsection \<open>The state functions\<close>

definition start :: "Readings \<Rightarrow> Robot \<Rightarrow> Robot" where
  "start r s =
     (let (b, s1) = buttonUpdate r s
      in if b then setEvent OnButtonPress s1 else s1)"

definition idle :: "Readings \<Rightarrow> Robot \<Rightarrow> Robot" where
  "idle r s =
     (let s1 = (if \<not> stopIdleTimer s \<and> \<not> startIdleTimer s
                then s\<lparr>idleTimer := ucast (millisArm r), startIdleTimer := True\<rparr>
                else s);
          (fired, s2) = updateIdle (millisNow r) s1
      in if fired then setEvent On5SecondsPassed s2 else s2)"

definition search :: "Readings \<Rightarrow> Robot \<Rightarrow> Robot" where
  "search r s =
     (let (e, s1) = QTRUpdate r s
      in if e > - 1 then setEvent OnEdge s1
         else
           (let s2 = setSpeeds (SEARCH_SPEED div 2) SEARCH_SPEED s1;
                (sonarRead, s3) = sonarUpdate r s2;
                (sonarReadLeft, s4) = sonarUpdateLeft r s3;
                (sonarReadRight, s5) = sonarUpdateRight r s4
            in if sonarRead < SONAR_THRESHOLD \<and> sonarRead > 0
               then setEvent OnFind (delay 50 (setSpeeds 0 0 s5))
               else if sonarReadLeft < SONAR_THRESHOLD \<and> sonarReadLeft > 0
               then setEvent OnLeft s5
               else if sonarReadRight < SONAR_THRESHOLD \<and> sonarReadRight > 0
               then setEvent OnRight s5
               else s5))"

definition chase :: "Readings \<Rightarrow> Robot \<Rightarrow> Robot" where
  "chase r s =
     (let s1 = setSpeeds FORWARD_SPEED FORWARD_SPEED s;
          (e, s2) = QTRUpdate r s1
      in if e > - 1 then setEvent OnEdge s2 else s2)"

text \<open>
  The three motor sequences of \<^verbatim>\<open>backUp\<close>. Both divisions by two are exact,
  so rounding plays no part.
\<close>

definition backLess :: "Robot \<Rightarrow> Robot" where
  "backLess s =
     delay TURN_DURATION (setSpeeds (- TURN_SPEED) TURN_SPEED
       (delay REVERSE_DURATION
         (setSpeeds (- REVERSE_SPEED) (- REVERSE_SPEED div 2) s)))"

definition backGreater :: "Robot \<Rightarrow> Robot" where
  "backGreater s =
     delay TURN_DURATION (setSpeeds TURN_SPEED (- TURN_SPEED)
       (delay REVERSE_DURATION
         (setSpeeds (- REVERSE_SPEED div 2) (- REVERSE_SPEED) s)))"

definition backElse :: "Robot \<Rightarrow> Robot" where
  "backElse s =
     delay TURN_DURATION (setSpeeds (- TURN_SPEED) TURN_SPEED
       (delay REVERSE_DURATION
         (setSpeeds (- REVERSE_SPEED) (- REVERSE_SPEED) s)))"

text \<open>
  In \<^verbatim>\<open>backUp\<close> the first \<^verbatim>\<open>if\<close> stands alone; the \<^verbatim>\<open>else\<close> belongs to the
  second \<^verbatim>\<open>if\<close>.
\<close>

definition backUp :: "Robot \<Rightarrow> Robot" where
  "backUp s =
     (let a = sensorValues s ! 0;
          b = sensorValues s ! (NUM_SENSORS - 1);
          s1 = (if a < b then backLess s else s);
          s2 = (if a > b then backGreater s1 else backElse s1)
      in setEvent OnSafe s2)"

definition turnLeft :: "Readings \<Rightarrow> Robot \<Rightarrow> Robot" where
  "turnLeft r s =
     (let s1 = setSpeeds (- TURN_SPEED) TURN_SPEED s;
          (e, s2) = QTRUpdate r s1
      in if e > - 1 then setEvent OnEdge s2
         else
           (let (sonarRead, s3) = sonarUpdate r s2
            in if sonarRead < SONAR_THRESHOLD \<and> sonarRead > 0
               then setEvent OnFind (delay 50 (setSpeeds 0 0 s3))
               else s3))"

definition turnRight :: "Readings \<Rightarrow> Robot \<Rightarrow> Robot" where
  "turnRight r s =
     (let s1 = setSpeeds TURN_SPEED (- TURN_SPEED) s;
          (e, s2) = QTRUpdate r s1
      in if e > - 1 then setEvent OnEdge s2
         else
           (let (sonarRead, s3) = sonarUpdate r s2
            in if sonarRead < SONAR_THRESHOLD \<and> sonarRead > 0
               then setEvent OnFind (delay 50 (setSpeeds 0 0 s3))
               else s3))"

subsection \<open>The control loop\<close>

definition doState :: "Readings \<Rightarrow> Robot \<Rightarrow> Robot" where
  "doState r s =
     (case zumoState s of
        Start \<Rightarrow> start r s
      | Idle \<Rightarrow> idle r s
      | Search \<Rightarrow> search r s
      | Chase \<Rightarrow> chase r s
      | BackUp \<Rightarrow> backUp s
      | TurnLeft \<Rightarrow> turnLeft r s
      | TurnRight \<Rightarrow> turnRight r s)"

definition loop :: "Readings \<Rightarrow> Robot \<Rightarrow> Robot" where
  "loop r s = doState r (updateState (updateEvent s))"

text \<open>
  The board calls \<^verbatim>\<open>loop()\<close> again and again without end. \<open>run s rs\<close> is the
  state after as many passes as \<open>rs\<close> has readings, so a statement about
  every \<open>rs\<close> is a statement about every moment of every execution.
\<close>

fun run :: "Robot \<Rightarrow> Readings list \<Rightarrow> Robot" where
  "run s [] = s"
| "run s (r # rs) = run (loop r s) rs"

subsection \<open>Reading the effects\<close>

fun emits :: "Effect list \<Rightarrow> Events list" where
  "emits [] = []"
| "emits (Emit e # fx) = e # emits fx"
| "emits (_ # fx) = emits fx"

fun commands :: "Effect list \<Rightarrow> (int \<times> int) list" where
  "commands [] = []"
| "commands (SetSpeeds l r # fx) = (l, r) # commands fx"
| "commands (_ # fx) = commands fx"

fun pings :: "Effect list \<Rightarrow> Effect list" where
  "pings [] = []"
| "pings (PingFront # fx) = PingFront # pings fx"
| "pings (PingLeft # fx) = PingLeft # pings fx"
| "pings (PingRight # fx) = PingRight # pings fx"
| "pings (_ # fx) = pings fx"

text \<open>The milliseconds spent in \<^verbatim>\<open>delay\<close>.\<close>

fun waits :: "Effect list \<Rightarrow> nat" where
  "waits [] = 0"
| "waits (Delay ms # fx) = ms + waits fx"
| "waits (_ # fx) = waits fx"

text \<open>What was appended to the effects between \<open>s\<close> and a later state \<open>s'\<close>.\<close>

definition since :: "Robot \<Rightarrow> Robot \<Rightarrow> Effect list" where
  "since s s' = drop (length (effects s)) (effects s')"

subsection \<open>The transition table of the specification\<close>

text \<open>
  The table of section 4.3 of the specification, row by row, and the
  transition function it describes: the listed next state for a listed pair,
  the same state for any other pair.
\<close>

definition spec_table :: "((States \<times> Events) \<times> States) list" where
  "spec_table =
     [((Start, OnButtonPress), Idle),
      ((Idle, On5SecondsPassed), Search),
      ((Search, OnFind), Chase),
      ((Search, OnLeft), TurnLeft),
      ((Search, OnRight), TurnRight),
      ((Search, OnEdge), BackUp),
      ((Chase, OnEdge), BackUp),
      ((Chase, OnLost), Search),
      ((TurnLeft, OnFind), Chase),
      ((TurnLeft, OnEdge), BackUp),
      ((TurnRight, OnFind), Chase),
      ((TurnRight, OnEdge), BackUp),
      ((BackUp, OnSafe), Search)]"

definition spec_next :: "States \<Rightarrow> Events \<Rightarrow> States" where
  "spec_next st ev =
     (case map_of spec_table (st, ev) of Some nx \<Rightarrow> nx | Option.None \<Rightarrow> st)"

subsection \<open>The event in force\<close>

text \<open>The event assigned last, or \<^verbatim>\<open>None\<close> when none was assigned.\<close>

definition lastEmit :: "Effect list \<Rightarrow> Events" where
  "lastEmit fx = (if emits fx = [] then NoneEv else last (emits fx))"

subsection \<open>Sample readings\<close>

text \<open>
  Readings for the worked examples. In \<open>quiet\<close> nothing is sensed: the
  button is up, every reflectance channel reads 1000 (dark), no sonar has an
  echo, and the clock stands at 1000 ms. The others change the named part.
\<close>

definition quiet :: Readings where
  "quiet = \<lparr>btnPress = False, qtrRead = (\<lambda>i. 1000), sonarCm = 0, sonarLeftCm = 0,
     sonarRightCm = 0, millisArm = 1000, millisNow = 1000\<rparr>"

definition pressed :: Readings where
  "pressed = quiet\<lparr>btnPress := True\<rparr>"

definition later :: Readings where
  "later = quiet\<lparr>millisArm := 6000, millisNow := 6000\<rparr>"

text \<open>The clock stands one second before the 32-bit counter wraps.\<close>

definition lateArm :: Readings where
  "lateArm = quiet\<lparr>millisArm := 4294966296, millisNow := 4294966296\<rparr>"

definition edgeSeen :: Readings where
  "edgeSeen = quiet\<lparr>qtrRead := (\<lambda>i. if i = 2 then 100 else 1000)\<rparr>"

definition edgeFirst :: Readings where
  "edgeFirst = quiet\<lparr>qtrRead := (\<lambda>i. if i = 0 then 100 else 1000)\<rparr>"

definition allSeen :: Readings where
  "allSeen = edgeSeen\<lparr>sonarCm := 10, sonarLeftCm := 10, sonarRightCm := 10\<rparr>"

definition frontSeen :: Readings where
  "frontSeen = quiet\<lparr>sonarCm := 15, sonarLeftCm := 12, sonarRightCm := 12\<rparr>"

definition leftSeen :: Readings where
  "leftSeen = quiet\<lparr>sonarLeftCm := 12, sonarRightCm := 12\<rparr>"

definition rightSeen :: Readings where
  "rightSeen = quiet\<lparr>sonarRightCm := 12\<rparr>"

section \<open>Basic facts\<close>

lemmas prims = logEffect_def setEvent_def setSpeeds_def delay_def

lemmas wrappers = buttonUpdate_def sonarUpdate_def sonarUpdateLeft_def
  sonarUpdateRight_def QTRUpdate_def

lemmas behaviours = start_def idle_def search_def chase_def backUp_def
  turnLeft_def turnRight_def backLess_def backGreater_def backElse_def
  updateIdle_def

lemmas readings = quiet_def pressed_def later_def lateArm_def edgeSeen_def edgeFirst_def
  allSeen_def frontSeen_def leftSeen_def rightSeen_def

lemmas sketch = setupSketch_def initialize_def boot_def loop_def updateEvent_def
  updateState_def doState_def behaviours wrappers prims Let_def macros QTRScan.simps

subsection \<open>Frame of the transition function\<close>

lemma updateState_zumoState:
  "zumoState (updateState s) = spec_next (zumoState s) (zumoEvent s)"
  by (cases "zumoState s"; cases "zumoEvent s")
     (simp_all add: updateState_def spec_next_def spec_table_def)

lemma updateState_frame:
  "updateState s = s\<lparr>zumoState := zumoState (updateState s)\<rparr>"
  by (cases "zumoState s"; cases "zumoEvent s")
     (simp_all add: updateState_def)

lemma updateState_twice: "updateState (updateState s) = updateState s"
  by (cases "zumoState s"; cases "zumoEvent s")
     (simp_all add: updateState_def)

lemma updateState_keeps [simp]:
  "zumoEvent (updateState s) = zumoEvent s"
  "effects (updateState s) = effects s"
  "startIdleTimer (updateState s) = startIdleTimer s"
  "stopIdleTimer (updateState s) = stopIdleTimer s"
  "idleTimer (updateState s) = idleTimer s"
  "motors (updateState s) = motors s"
  "sensorValues (updateState s) = sensorValues s"
  by (subst updateState_frame, simp)+

lemma spec_next_twice: "spec_next (spec_next st ev) ev = spec_next st ev"
  by (cases st; cases ev) (simp_all add: spec_next_def spec_table_def)

lemma spec_next_Start: "spec_next st ev = Start \<Longrightarrow> st = Start"
  by (cases st; cases ev) (simp_all add: spec_next_def spec_table_def)

lemma setup_fields:
  "zumoState (setupSketch t1 t2) = Start"
  "zumoEvent (setupSketch t1 t2) = NoneEv"
  "effects (setupSketch t1 t2) = []"
  "startIdleTimer (setupSketch t1 t2) = False"
  "stopIdleTimer (setupSketch t1 t2) = False"
  "motors (setupSketch t1 t2) = (0, 0)"
  by (simp_all add: setupSketch_def initialize_def boot_def)

subsection \<open>Effects\<close>

lemma emits_append [simp]: "emits (fx @ gx) = emits fx @ emits gx"
  by (induction fx rule: emits.induct) simp_all

lemma commands_append [simp]: "commands (fx @ gx) = commands fx @ commands gx"
  by (induction fx rule: commands.induct) simp_all

lemma pings_append [simp]: "pings (fx @ gx) = pings fx @ pings gx"
  by (induction fx rule: pings.induct) simp_all

lemma waits_append [simp]: "waits (fx @ gx) = waits fx + waits gx"
  by (induction fx rule: waits.induct) simp_all

lemma count_list_app: "count_list (xs @ ys) a = count_list xs a + count_list ys a"
  by (induction xs) simp_all

lemma since_updateState [simp]: "since (updateState s) s' = since s s'"
  by (simp add: since_def)

subsection \<open>The edge scan\<close>

lemma QTRScan_unroll:
  "QTRScan vs 0 =
     (if vs ! 0 < QTRTHRESHOLD then 0
      else if vs ! 1 < QTRTHRESHOLD then 1
      else if vs ! 2 < QTRTHRESHOLD then 2
      else if vs ! 3 < QTRTHRESHOLD then 3
      else - 1)"
proof -
  have s4: "QTRScan vs 4 = - 1"
    by (subst QTRScan.simps) (simp add: NUM_SENSORS_def)
  have s3: "QTRScan vs 3 = (if vs ! 3 < QTRTHRESHOLD then 3 else - 1)"
    by (subst QTRScan.simps) (simp add: NUM_SENSORS_def s4)
  have s2: "QTRScan vs 2 = (if vs ! 2 < QTRTHRESHOLD then 2 else QTRScan vs 3)"
    by (subst QTRScan.simps) (simp add: NUM_SENSORS_def)
  have s1: "QTRScan vs 1 = (if vs ! 1 < QTRTHRESHOLD then 1 else QTRScan vs 2)"
    by (subst QTRScan.simps) (simp add: NUM_SENSORS_def numeral_2_eq_2)
  have s0: "QTRScan vs 0 = (if vs ! 0 < QTRTHRESHOLD then 0 else QTRScan vs 1)"
    by (subst QTRScan.simps) (simp add: NUM_SENSORS_def)
  show ?thesis
    by (simp only: s0 s1 s2 s3)
qed

lemma fst_QTRUpdate:
  "fst (QTRUpdate r s) =
     (if qtrRead r 0 < QTRTHRESHOLD then 0
      else if qtrRead r 1 < QTRTHRESHOLD then 1
      else if qtrRead r 2 < QTRTHRESHOLD then 2
      else if qtrRead r 3 < QTRTHRESHOLD then 3
      else - 1)"
proof -
  have "map (qtrRead r) [0..<NUM_SENSORS] =
      [qtrRead r 0, qtrRead r 1, qtrRead r 2, qtrRead r 3]"
    by (simp add: NUM_SENSORS_def upt_rec numeral_2_eq_2 numeral_3_eq_3)
  then show ?thesis
    by (simp add: QTRUpdate_def logEffect_def Let_def QTRScan_unroll)
qed

text \<open>
  \<^verbatim>\<open>QTRUpdate\<close> returns an index exactly when some channel reads below the
  threshold.
\<close>

lemma edge_present:
  "(fst (QTRUpdate r s) > - 1) = (\<exists>i<NUM_SENSORS. qtrRead r i < QTRTHRESHOLD)"
proof -
  have "(\<exists>i<NUM_SENSORS. qtrRead r i < QTRTHRESHOLD) =
      (qtrRead r 0 < QTRTHRESHOLD \<or> qtrRead r 1 < QTRTHRESHOLD
       \<or> qtrRead r 2 < QTRTHRESHOLD \<or> qtrRead r 3 < QTRTHRESHOLD)"
    by (auto simp add: NUM_SENSORS_def less_Suc_eq numeral_eq_Suc)
  then show ?thesis
    by (simp add: fst_QTRUpdate)
qed

subsection \<open>What each state function appends to the effects\<close>

lemma since_search_edge:
  assumes "fst (QTRUpdate r s) > - 1"
  shows "since s (search r s) = [ReadQTR, Emit OnEdge]"
    and "zumoEvent (search r s) = OnEdge"
    and "motors (search r s) = motors s"
  using assms
  by (simp_all add: search_def since_def split_beta QTRUpdate_def prims Let_def)

lemma since_search_clear:
  assumes "\<not> fst (QTRUpdate r s) > - 1"
  shows "since s (search r s) =
    [ReadQTR, SetSpeeds 100 200, PingFront, PingLeft, PingRight] @
    (if sonarCm r < SONAR_THRESHOLD \<and> sonarCm r > 0
     then [SetSpeeds 0 0, Delay 50, Emit OnFind]
     else if sonarLeftCm r < SONAR_THRESHOLD \<and> sonarLeftCm r > 0
     then [Emit OnLeft]
     else if sonarRightCm r < SONAR_THRESHOLD \<and> sonarRightCm r > 0
     then [Emit OnRight]
     else [])"
  using assms
  by (simp add: search_def since_def split_beta wrappers prims Let_def SEARCH_SPEED_def)

lemma search_event_clear:
  assumes "\<not> fst (QTRUpdate r s) > - 1"
  shows "zumoEvent (search r s) =
    (if sonarCm r < SONAR_THRESHOLD \<and> sonarCm r > 0 then OnFind
     else if sonarLeftCm r < SONAR_THRESHOLD \<and> sonarLeftCm r > 0 then OnLeft
     else if sonarRightCm r < SONAR_THRESHOLD \<and> sonarRightCm r > 0 then OnRight
     else zumoEvent s)"
  using assms
  by (simp add: search_def split_beta wrappers prims Let_def)

lemma since_turnLeft:
  "since s (turnLeft r s) =
    [SetSpeeds (- 300) 300, ReadQTR] @
    (if fst (QTRUpdate r s) > - 1 then [Emit OnEdge]
     else PingFront #
       (if sonarCm r < SONAR_THRESHOLD \<and> sonarCm r > 0
        then [SetSpeeds 0 0, Delay 50, Emit OnFind] else []))"
  by (simp add: turnLeft_def since_def split_beta wrappers prims Let_def TURN_SPEED_def)

lemma since_turnRight:
  "since s (turnRight r s) =
    [SetSpeeds 300 (- 300), ReadQTR] @
    (if fst (QTRUpdate r s) > - 1 then [Emit OnEdge]
     else PingFront #
       (if sonarCm r < SONAR_THRESHOLD \<and> sonarCm r > 0
        then [SetSpeeds 0 0, Delay 50, Emit OnFind] else []))"
  by (simp add: turnRight_def since_def split_beta wrappers prims Let_def TURN_SPEED_def)

lemma since_chase:
  "since s (chase r s) =
    [SetSpeeds 400 400, ReadQTR] @
    (if fst (QTRUpdate r s) > - 1 then [Emit OnEdge] else [])"
  by (simp add: chase_def since_def split_beta wrappers prims Let_def FORWARD_SPEED_def)

lemma since_start:
  "since s (start r s) = ReadButton # (if btnPress r then [Emit OnButtonPress] else [])"
  by (simp add: start_def since_def split_beta wrappers prims Let_def)

lemma since_idle:
  "set (emits (since s (idle r s))) \<subseteq> {On5SecondsPassed}"
  by (simp add: idle_def updateIdle_def since_def split_beta prims Let_def)

text \<open>
  \<^verbatim>\<open>backUp\<close>: when the first reading is the smaller one, the sequence of the
  first \<^verbatim>\<open>if\<close> is followed by the sequence of the \<^verbatim>\<open>else\<close>.
\<close>

lemma since_backUp:
  "since s (backUp s) =
    (if sensorValues s ! 0 < sensorValues s ! (NUM_SENSORS - 1)
     then [SetSpeeds (- 400) (- 200), Delay 200, SetSpeeds (- 300) 300, Delay 300]
     else [])
    @ (if sensorValues s ! 0 > sensorValues s ! (NUM_SENSORS - 1)
       then [SetSpeeds (- 200) (- 400), Delay 200, SetSpeeds 300 (- 300), Delay 300]
       else [SetSpeeds (- 400) (- 400), Delay 200, SetSpeeds (- 300) 300, Delay 300])
    @ [Emit OnSafe]"
  by (auto simp add: backUp_def backLess_def backGreater_def backElse_def since_def prims
      Let_def macros)

subsection \<open>One pass of the dispatcher and of the loop\<close>

lemma doState_effects:
  "effects (doState r s) = effects s @ since s (doState r s)"
  by (cases "zumoState s")
     (auto simp add: doState_def behaviours since_def split_beta wrappers prims Let_def)

lemma doState_event:
  "zumoEvent (doState r s) =
     (if emits (since s (doState r s)) = [] then zumoEvent s
      else last (emits (since s (doState r s))))"
  by (cases "zumoState s")
     (auto simp add: doState_def behaviours since_def split_beta wrappers prims Let_def)

lemma doState_state [simp]: "zumoState (doState r s) = zumoState s"
  by (cases "zumoState s")
     (auto simp add: doState_def behaviours since_def split_beta wrappers prims Let_def)

lemma doState_range_events:
  "OnFind \<in> set (emits (since s (doState r s))) \<Longrightarrow>
     (zumoState s = Search \<or> zumoState s = TurnLeft \<or> zumoState s = TurnRight)
     \<and> 0 < sonarCm r \<and> sonarCm r < SONAR_THRESHOLD"
  "OnLeft \<in> set (emits (since s (doState r s))) \<Longrightarrow>
     zumoState s = Search \<and> 0 < sonarLeftCm r \<and> sonarLeftCm r < SONAR_THRESHOLD"
  "OnRight \<in> set (emits (since s (doState r s))) \<Longrightarrow>
     zumoState s = Search \<and> 0 < sonarRightCm r \<and> sonarRightCm r < SONAR_THRESHOLD"
  "OnLost \<notin> set (emits (since s (doState r s)))"
  "NoneEv \<notin> set (emits (since s (doState r s)))"
  using since_idle [of s r]
  by (cases "zumoState s";
      cases "fst (QTRUpdate r s) > - 1";
      auto simp add: doState_def since_search_edge since_search_clear since_turnLeft
        since_turnRight since_chase since_start since_backUp split: if_splits)+

lemma loop_effects: "effects (loop r s) = effects s @ since s (loop r s)"
  using doState_effects [of r "updateState s"]
  by (simp add: loop_def updateEvent_def)

lemma loop_event:
  "zumoEvent (loop r s) =
     (if emits (since s (loop r s)) = [] then zumoEvent s
      else last (emits (since s (loop r s))))"
  using doState_event [of r "updateState s"]
  by (simp add: loop_def updateEvent_def)

lemma loop_state: "zumoState (loop r s) = spec_next (zumoState s) (zumoEvent s)"
  by (simp add: loop_def updateEvent_def updateState_zumoState)

text \<open>A property kept by every pass is kept by every run.\<close>

lemma run_invariant:
  assumes step: "\<And>r s. P s \<Longrightarrow> P (loop r s)"
  shows "P s \<Longrightarrow> P (run s rs)"
proof (induction rs arbitrary: s)
  case Nil
  then show ?case by simp
next
  case (Cons r rs)
  from Cons.prems have "P (loop r s)" by (rule step)
  then show ?case by (simp add: Cons.IH)
qed

subsection \<open>The idle timer\<close>

lemma doState_stop_keep: "stopIdleTimer s \<Longrightarrow> stopIdleTimer (doState r s)"
  by (cases "zumoState s")
     (auto simp add: doState_def behaviours split_beta wrappers prims Let_def)

lemma doState_start_keep:
  "startIdleTimer s \<Longrightarrow>
     startIdleTimer (doState r s) \<and> idleTimer (doState r s) = idleTimer s"
  by (cases "zumoState s")
     (auto simp add: doState_def behaviours split_beta wrappers prims Let_def)

lemma doState_fire_count:
  "count_list (emits (since s (doState r s))) On5SecondsPassed =
     (if stopIdleTimer (doState r s) \<and> \<not> stopIdleTimer s then 1 else 0)"
  by (cases "zumoState s")
     (auto simp add: doState_def behaviours since_def split_beta wrappers prims Let_def)

lemma doState_fire_time:
  "On5SecondsPassed \<in> set (emits (since s (doState r s))) \<Longrightarrow>
     zumoState s = Idle \<and> startIdleTimer (doState r s)
     \<and> idleTimer (doState r s) + 5000 \<le> ucast (millisNow r)"
  by (cases "zumoState s")
     (auto simp add: doState_def behaviours since_def split_beta wrappers prims Let_def
        split: if_splits)

lemma doState_arm:
  "zumoState s = Idle \<Longrightarrow> \<not> startIdleTimer s \<Longrightarrow> \<not> stopIdleTimer s \<Longrightarrow>
     startIdleTimer (doState r s) \<and> idleTimer (doState r s) = ucast (millisArm r)"
  by (auto simp add: doState_def behaviours split_beta wrappers prims Let_def)

lemma doState_not_idle_timers:
  "zumoState s \<noteq> Idle \<Longrightarrow>
     startIdleTimer (doState r s) = startIdleTimer s
     \<and> stopIdleTimer (doState r s) = stopIdleTimer s"
  by (cases "zumoState s")
     (auto simp add: doState_def behaviours split_beta wrappers prims Let_def)

text \<open>
  The armed value fits 32 bits, so the 64-bit sum does not wrap and the
  comparison of \<^verbatim>\<open>updateIdle\<close> is the comparison of the two clock values.
\<close>

lemma deadline_word:
  fixes a now :: "32 word"
  shows "((ucast a :: 64 word) + 5000 \<le> ucast now) = (uint a + 5000 \<le> uint now)"
proof -
  have up: "uint (ucast a :: 64 word) = uint a" "uint (ucast now :: 64 word) = uint now"
    by (simp_all add: uint_up_ucast is_up)
  have "uint a < 2 ^ 32"
    using uint_lt2p [of a] by simp
  then have "uint ((ucast a :: 64 word) + 5000) = uint a + 5000"
    by (simp add: uint_word_ariths up)
  then show ?thesis
    by (simp add: word_le_def up)
qed

lemma loop_stop_keep: "stopIdleTimer s \<Longrightarrow> stopIdleTimer (loop r s)"
  by (simp add: loop_def updateEvent_def doState_stop_keep)

lemma loop_start_keep:
  "startIdleTimer s \<Longrightarrow>
     startIdleTimer (loop r s) \<and> idleTimer (loop r s) = idleTimer s"
  using doState_start_keep [of "updateState s" r]
  by (simp add: loop_def updateEvent_def)

lemma run_stop_keep: "stopIdleTimer s \<Longrightarrow> stopIdleTimer (run s rs)"
  by (rule run_invariant [where P = stopIdleTimer]) (simp_all add: loop_stop_keep)

lemma run_start_keep:
  assumes "startIdleTimer s"
  shows "startIdleTimer (run s rs) \<and> idleTimer (run s rs) = idleTimer s"
  by (rule run_invariant [where P = "\<lambda>x. startIdleTimer x \<and> idleTimer x = idleTimer s"])
     (use assms loop_start_keep in auto)

lemma loop_fire_count:
  "count_list (emits (since s (loop r s))) On5SecondsPassed =
     (if stopIdleTimer (loop r s) \<and> \<not> stopIdleTimer s then 1 else 0)"
  using doState_fire_count [of "updateState s" r]
  by (simp add: loop_def updateEvent_def)

lemma loop_fire_inv:
  assumes "count_list (emits (effects s)) On5SecondsPassed
             \<le> (if stopIdleTimer s then 1 else 0)"
  shows "count_list (emits (effects (loop r s))) On5SecondsPassed
           \<le> (if stopIdleTimer (loop r s) then 1 else 0)"
proof -
  have "count_list (emits (effects (loop r s))) On5SecondsPassed =
      count_list (emits (effects s)) On5SecondsPassed
      + count_list (emits (since s (loop r s))) On5SecondsPassed"
    by (subst loop_effects) (simp add: count_list_app)
  with assms loop_stop_keep [of s r] show ?thesis
    by (simp add: loop_fire_count split: if_splits)
qed

lemma run_fire_inv:
  "count_list (emits (effects (run (setupSketch t1 t2) rs))) On5SecondsPassed
     \<le> (if stopIdleTimer (run (setupSketch t1 t2) rs) then 1 else 0)"
proof (rule run_invariant [where P = "\<lambda>s. count_list (emits (effects s)) On5SecondsPassed
        \<le> (if stopIdleTimer s then 1 else 0)"])
  fix r and s :: Robot
  assume "count_list (emits (effects s)) On5SecondsPassed
      \<le> (if stopIdleTimer s then 1 else 0)"
  then show "count_list (emits (effects (loop r s))) On5SecondsPassed
      \<le> (if stopIdleTimer (loop r s) then 1 else 0)"
    by (rule loop_fire_inv)
next
  show "count_list (emits (effects (setupSketch t1 t2))) On5SecondsPassed
      \<le> (if stopIdleTimer (setupSketch t1 t2) then 1 else 0)"
    by (simp add: setup_fields)
qed

text \<open>While the machine is in \<^verbatim>\<open>Start\<close> neither timer flag is set.\<close>

lemma loop_flags_inv:
  assumes "zumoState s = Start \<longrightarrow> \<not> startIdleTimer s \<and> \<not> stopIdleTimer s"
  shows "zumoState (loop r s) = Start \<longrightarrow>
     \<not> startIdleTimer (loop r s) \<and> \<not> stopIdleTimer (loop r s)"
proof
  assume a: "zumoState (loop r s) = Start"
  then have st: "zumoState s = Start"
    by (simp add: loop_state spec_next_Start)
  from a have "zumoState (updateState s) \<noteq> Idle"
    by (simp add: loop_def updateEvent_def)
  from doState_not_idle_timers [OF this, of r] assms st
  show "\<not> startIdleTimer (loop r s) \<and> \<not> stopIdleTimer (loop r s)"
    by (simp add: loop_def updateEvent_def)
qed

lemma run_flags_inv:
  "zumoState (run (setupSketch t1 t2) rs) = Start \<longrightarrow>
     \<not> startIdleTimer (run (setupSketch t1 t2) rs)
     \<and> \<not> stopIdleTimer (run (setupSketch t1 t2) rs)"
proof (rule run_invariant [where P = "\<lambda>s. zumoState s = Start \<longrightarrow>
        \<not> startIdleTimer s \<and> \<not> stopIdleTimer s"])
  fix r and s :: Robot
  assume "zumoState s = Start \<longrightarrow> \<not> startIdleTimer s \<and> \<not> stopIdleTimer s"
  then show "zumoState (loop r s) = Start \<longrightarrow>
      \<not> startIdleTimer (loop r s) \<and> \<not> stopIdleTimer (loop r s)"
    by (rule loop_flags_inv)
next
  show "zumoState (setupSketch t1 t2) = Start \<longrightarrow>
      \<not> startIdleTimer (setupSketch t1 t2) \<and> \<not> stopIdleTimer (setupSketch t1 t2)"
    by (simp add: setup_fields)
qed

lemma loop_fire_time:
  assumes "On5SecondsPassed \<in> set (emits (since s (loop r s)))"
  shows "startIdleTimer (loop r s) \<and> idleTimer (loop r s) + 5000 \<le> ucast (millisNow r)"
  using doState_fire_time [of "updateState s" r] assms
  by (simp add: loop_def updateEvent_def)

lemma loop_arm:
  assumes "zumoState (loop r s) = Idle" "\<not> startIdleTimer s" "\<not> stopIdleTimer s"
  shows "startIdleTimer (loop r s) \<and> idleTimer (loop r s) = ucast (millisArm r)"
  using doState_arm [of "updateState s" r] assms
  by (simp add: loop_def updateEvent_def)

lemma updateIdle_stop:
  "fst (updateIdle now s) \<Longrightarrow> stopIdleTimer (snd (updateIdle now s))"
  by (simp add: updateIdle_def split: if_splits)

lemma updateIdle_spent: "stopIdleTimer s \<Longrightarrow> updateIdle now s = (False, s)"
  by (simp add: updateIdle_def)

subsection \<open>The event in force\<close>

text \<open>
  In every execution the event variable holds the event assigned last, and
  \<^verbatim>\<open>OnLost\<close> is never among the events assigned.
\<close>

lemma lastEmit_member: "lastEmit fx = NoneEv \<or> lastEmit fx \<in> set (emits fx)"
  by (simp add: lastEmit_def)

lemma loop_lastEmit:
  assumes "zumoEvent s = lastEmit (effects s)"
  shows "zumoEvent (loop r s) = lastEmit (effects (loop r s))"
proof -
  have "lastEmit (effects (loop r s)) =
      (if emits (since s (loop r s)) = [] then lastEmit (effects s)
       else last (emits (since s (loop r s))))"
    by (subst loop_effects) (simp add: lastEmit_def)
  with assms show ?thesis
    by (simp add: loop_event)
qed

lemma run_lastEmit:
  "zumoEvent (run (setupSketch t1 t2) rs) = lastEmit (effects (run (setupSketch t1 t2) rs))"
proof (rule run_invariant [where P = "\<lambda>s. zumoEvent s = lastEmit (effects s)"])
  fix r and s :: Robot
  assume "zumoEvent s = lastEmit (effects s)"
  then show "zumoEvent (loop r s) = lastEmit (effects (loop r s))"
    by (rule loop_lastEmit)
next
  show "zumoEvent (setupSketch t1 t2) = lastEmit (effects (setupSketch t1 t2))"
    by (simp add: setup_fields lastEmit_def)
qed

lemma loop_no_OnLost:
  assumes "OnLost \<notin> set (emits (effects s))"
  shows "OnLost \<notin> set (emits (effects (loop r s)))"
proof -
  have "OnLost \<notin> set (emits (since s (loop r s)))"
    using doState_range_events(4) [of "updateState s" r]
    by (simp add: loop_def updateEvent_def)
  with assms show ?thesis
    by (subst loop_effects) simp
qed

lemma run_no_OnLost: "OnLost \<notin> set (emits (effects (run (setupSketch t1 t2) rs)))"
proof (rule run_invariant [where P = "\<lambda>s. OnLost \<notin> set (emits (effects s))"])
  fix r and s :: Robot
  assume "OnLost \<notin> set (emits (effects s))"
  then show "OnLost \<notin> set (emits (effects (loop r s)))"
    by (rule loop_no_OnLost)
next
  show "OnLost \<notin> set (emits (effects (setupSketch t1 t2)))"
    by (simp add: setup_fields)
qed

lemma run_event_not_OnLost: "zumoEvent (run (setupSketch t1 t2) rs) \<noteq> OnLost"
  using lastEmit_member [of "effects (run (setupSketch t1 t2) rs)"]
    run_no_OnLost [of t1 t2 rs]
  by (auto simp add: run_lastEmit)

lemma loop_no_NoneEv:
  assumes "NoneEv \<notin> set (emits (effects s))"
  shows "NoneEv \<notin> set (emits (effects (loop r s)))"
proof -
  have "NoneEv \<notin> set (emits (since s (loop r s)))"
    using doState_range_events(5) [of "updateState s" r]
    by (simp add: loop_def updateEvent_def)
  with assms show ?thesis
    by (subst loop_effects) simp
qed

lemma run_no_NoneEv: "NoneEv \<notin> set (emits (effects (run (setupSketch t1 t2) rs)))"
proof (rule run_invariant [where P = "\<lambda>s. NoneEv \<notin> set (emits (effects s))"])
  fix r and s :: Robot
  assume "NoneEv \<notin> set (emits (effects s))"
  then show "NoneEv \<notin> set (emits (effects (loop r s)))"
    by (rule loop_no_NoneEv)
next
  show "NoneEv \<notin> set (emits (effects (setupSketch t1 t2)))"
    by (simp add: setup_fields)
qed

lemma run_event_NoneEv:
  "(zumoEvent (run (setupSketch t1 t2) rs) = NoneEv)
     = (emits (effects (run (setupSketch t1 t2) rs)) = [])"
proof -
  let ?fx = "effects (run (setupSketch t1 t2) rs)"
  have "lastEmit ?fx \<noteq> NoneEv" if "emits ?fx \<noteq> []"
  proof -
    from that have "lastEmit ?fx \<in> set (emits ?fx)"
      by (simp add: lastEmit_def)
    with run_no_NoneEv [of t1 t2 rs] show ?thesis
      by auto
  qed
  moreover have "lastEmit ?fx = NoneEv" if "emits ?fx = []"
    using that by (simp add: lastEmit_def)
  ultimately show ?thesis
    by (auto simp add: run_lastEmit)
qed

lemma chase_exit:
  "spec_next Chase ev = (if ev = OnEdge then BackUp else if ev = OnLost then Search else Chase)"
  by (cases ev) (simp_all add: spec_next_def spec_table_def)

subsection \<open>The recovery manoeuvre\<close>

lemma backUp_state [simp]: "zumoState (backUp s) = zumoState s"
  by (simp add: backUp_def backLess_def backGreater_def backElse_def prims Let_def)

lemma backUp_event [simp]: "zumoEvent (backUp s) = OnSafe"
  by (simp add: backUp_def prims Let_def)

lemma backUp_effects: "effects (backUp s) = effects s @ since s (backUp s)"
  by (auto simp add: backUp_def backLess_def backGreater_def backElse_def since_def prims
      Let_def)

subsection \<open>Evaluating the worked examples\<close>

lemma replicate_four: "replicate 4 x = [x, x, x, x]"
  by (simp add: numeral_eq_Suc)

lemma upt_four: "[0..<4] = [0, 1, 2, 3]"
  by (simp add: upt_rec numeral_2_eq_2 numeral_3_eq_3)

lemmas concrete = sketch readings replicate_four upt_four

subsection \<open>A timer armed just before the clock wraps\<close>

lemma run_append: "run s (rs @ rs') = run (run s rs) rs'"
  by (induction rs arbitrary: s) simp_all

text \<open>
  The sum \<^verbatim>\<open>idleTimer + 5000\<close> is then above every value of the 32-bit
  clock, and a pass in \<^verbatim>\<open>Idle\<close> changes nothing at all.
\<close>

lemma deadline_beyond_clock:
  fixes now :: "32 word"
  shows "\<not> (4294966296 :: 64 word) + 5000 \<le> ucast now"
proof -
  have "uint (ucast now :: 64 word) = uint now"
    by (simp add: uint_up_ucast is_up)
  moreover have "uint now < 2 ^ 32"
    using uint_lt2p [of now] by simp
  ultimately show ?thesis
    by (simp add: word_le_def)
qed

lemma armed_late:
  "run (setupSketch 0 0) [pressed, lateArm] =
     \<lparr>zumoState = Idle, zumoEvent = OnButtonPress, pingRead = 0, pingReadLeft = 0,
      pingReadRight = 0, sensorValues = [0, 0, 0, 0], startIdleTimer = True,
      stopIdleTimer = False, idleTimer = 4294966296, otteTalsTimer = 0, motors = (0, 0),
      effects = [ReadButton, Emit OnButtonPress]\<rparr>"
  by (simp add: concrete)

lemma armed_late_loop:
  "loop r (run (setupSketch 0 0) [pressed, lateArm]) = run (setupSketch 0 0) [pressed, lateArm]"
  unfolding armed_late
  using deadline_beyond_clock [of "millisNow r"]
  by (simp add: loop_def updateEvent_def updateState_def doState_def idle_def updateIdle_def)

lemma armed_late_run:
  "run (run (setupSketch 0 0) [pressed, lateArm]) rs = run (setupSketch 0 0) [pressed, lateArm]"
  by (rule run_invariant [where P = "\<lambda>s. s = run (setupSketch 0 0) [pressed, lateArm]"])
     (simp_all only: armed_late_loop)

section \<open>The transition function\<close>

text \<open>
  C1. \<^verbatim>\<open>updateState\<close> changes nothing but the state, and the state it
  leaves is the one the table of section 4.3 gives: every row of the table is
  taken as listed, a pair that is not in the table leaves the state as it
  was, the event \<^verbatim>\<open>None\<close> never moves the machine, and the state variable
  starts as \<^verbatim>\<open>Start\<close>, both by its initialiser and after
  \<^verbatim>\<open>initialize()\<close>.
\<close>

theorem updateState_is_table:
  "updateState s = s\<lparr>zumoState := spec_next (zumoState s) (zumoEvent s)\<rparr>
   \<and> list_all (\<lambda>((st, ev), nx).
         zumoState (updateState (s\<lparr>zumoState := st, zumoEvent := ev\<rparr>)) = nx)
       spec_table
   \<and> spec_next st NoneEv = st
   \<and> zumoState boot = Start
   \<and> zumoState (initialize t1 t2 s) = Start"
proof -
  have "updateState s = s\<lparr>zumoState := spec_next (zumoState s) (zumoEvent s)\<rparr>"
    using updateState_frame [of s] by (simp add: updateState_zumoState)
  moreover have "spec_next st NoneEv = st"
    by (cases st) (simp_all add: spec_next_def spec_table_def)
  moreover have "list_all (\<lambda>((st, ev), nx).
      zumoState (updateState (s\<lparr>zumoState := st, zumoEvent := ev\<rparr>)) = nx) spec_table"
    by (simp add: spec_table_def updateState_def)
  ultimately show ?thesis
    by (simp add: boot_def initialize_def)
qed

text \<open>
  C10. Applying \<^verbatim>\<open>updateState\<close> a second time with the same event changes
  nothing, and neither does any further number of applications. In the
  loop: when a pass assigns no event, so that the next pass finds the event
  of the pass before, the next pass leaves the state where it is. An event
  that stays in \<^verbatim>\<open>zumoEvent\<close> moves the machine at most once.
\<close>

theorem updateState_idempotent:
  "updateState (updateState s) = updateState s
   \<and> (updateState ^^ Suc n) s = updateState s
   \<and> (emits (since s (loop r s)) = [] \<longrightarrow>
        zumoState (loop r' (loop r s)) = zumoState (loop r s))"
proof -
  have "(updateState ^^ Suc n) s = updateState s"
  proof (induction n)
    case 0
    show ?case by simp
  next
    case (Suc n)
    have "(updateState ^^ Suc (Suc n)) s = updateState ((updateState ^^ Suc n) s)"
      by simp
    also have "\<dots> = updateState (updateState s)"
      by (simp only: Suc.IH)
    finally show ?case
      by (simp only: updateState_twice)
  qed
  moreover have "zumoState (loop r' (loop r s)) = zumoState (loop r s)"
    if "emits (since s (loop r s)) = []"
  proof -
    from that have "zumoEvent (loop r s) = zumoEvent s"
      by (simp add: loop_event)
    then show ?thesis
      by (simp add: loop_state spec_next_twice)
  qed
  ultimately show ?thesis
    by (simp add: updateState_twice)
qed

theorem updateState_idempotent_witness:
  "emits (since (run (setupSketch 0 0) [pressed])
       (loop quiet (run (setupSketch 0 0) [pressed]))) = []
   \<and> zumoState (run (setupSketch 0 0) [pressed]) = Start
   \<and> zumoState (loop quiet (run (setupSketch 0 0) [pressed])) = Idle
   \<and> zumoState (loop quiet (loop quiet (run (setupSketch 0 0) [pressed]))) = Idle"
  using updateState_idempotent [where s = "run (setupSketch 0 0) [pressed]"
      and r = quiet and r' = quiet]
  by (simp add: concrete since_def)

section \<open>The idle timer\<close>

text \<open>
  What the sketch keeps of the one-shot timer. In every execution from
  \<^verbatim>\<open>setup()\<close>, \<^verbatim>\<open>On5SecondsPassed\<close> is assigned at most once. Let the
  machine be in \<^verbatim>\<open>Start\<close> and let the next pass take it to \<^verbatim>\<open>Idle\<close>;
  that pass is the first Idle cycle and stores the clock value
  \<open>millisArm r1\<close>. If that pass, or any pass after any number of further
  passes, assigns \<^verbatim>\<open>On5SecondsPassed\<close>, then the clock value that
  \<^verbatim>\<open>updateIdle\<close> read is at least 5000 ms later than the stored one.
  Once \<^verbatim>\<open>updateIdle\<close> has returned true, \<^verbatim>\<open>stopIdleTimer\<close> is set and
  \<^verbatim>\<open>updateIdle\<close> returns false after any number of further passes, whatever
  the clock says (nothing in the sketch clears the flag). And an armed timer
  that has not fired does fire in an \<^verbatim>\<open>idle()\<close> call when the 64-bit test
  of \<^verbatim>\<open>updateIdle\<close> holds.
\<close>

theorem idle_fires_once:
  "count_list (emits (effects (run (setupSketch t1 t2) rs))) On5SecondsPassed \<le> 1
   \<and> (zumoState (run (setupSketch t1 t2) rs) = Start
        \<and> zumoState (loop r1 (run (setupSketch t1 t2) rs)) = Idle \<longrightarrow>
      (On5SecondsPassed \<in> set (emits (since (run (setupSketch t1 t2) rs)
            (loop r1 (run (setupSketch t1 t2) rs)))) \<longrightarrow>
         uint (millisArm r1) + 5000 \<le> uint (millisNow r1))
      \<and> (On5SecondsPassed \<in> set (emits (since
            (run (loop r1 (run (setupSketch t1 t2) rs)) rs1)
            (loop r (run (loop r1 (run (setupSketch t1 t2) rs)) rs1)))) \<longrightarrow>
         uint (millisArm r1) + 5000 \<le> uint (millisNow r)))
   \<and> (fst (updateIdle now s) \<longrightarrow>
        stopIdleTimer (snd (updateIdle now s))
        \<and> \<not> fst (updateIdle now' (run (snd (updateIdle now s)) rs2)))
   \<and> (startIdleTimer s \<and> \<not> stopIdleTimer s
        \<and> idleTimer s + 5000 \<le> ucast (millisNow r) \<longrightarrow>
        since s (idle r s) = [Emit On5SecondsPassed])"
proof -
  let ?s0 = "run (setupSketch t1 t2) rs"
  let ?s1 = "loop r1 ?s0"
  let ?s2 = "run ?s1 rs1"
  have A: "count_list (emits (effects ?s0)) On5SecondsPassed \<le> 1"
    using run_fire_inv [of t1 t2 rs] by (simp split: if_splits)
  have B: "(On5SecondsPassed \<in> set (emits (since ?s0 ?s1)) \<longrightarrow>
         uint (millisArm r1) + 5000 \<le> uint (millisNow r1))
      \<and> (On5SecondsPassed \<in> set (emits (since ?s2 (loop r ?s2))) \<longrightarrow>
         uint (millisArm r1) + 5000 \<le> uint (millisNow r))"
    if st: "zumoState ?s0 = Start" and idl: "zumoState ?s1 = Idle"
  proof -
    from run_flags_inv [of t1 t2 rs] st
    have clear: "\<not> startIdleTimer ?s0" "\<not> stopIdleTimer ?s0" by simp_all
    from loop_arm [OF idl clear]
    have armed: "startIdleTimer ?s1" "idleTimer ?s1 = ucast (millisArm r1)" by simp_all
    have first: "uint (millisArm r1) + 5000 \<le> uint (millisNow r1)"
      if "On5SecondsPassed \<in> set (emits (since ?s0 ?s1))"
      using loop_fire_time [OF that] armed by (simp add: deadline_word)
    from run_start_keep [OF armed(1), of rs1] armed
    have kept: "startIdleTimer ?s2" "idleTimer ?s2 = ucast (millisArm r1)" by simp_all
    have later: "uint (millisArm r1) + 5000 \<le> uint (millisNow r)"
      if "On5SecondsPassed \<in> set (emits (since ?s2 (loop r ?s2)))"
      using loop_fire_time [OF that] loop_start_keep [OF kept(1), of r] kept
      by (simp add: deadline_word)
    from first later show ?thesis by blast
  qed
  have D: "stopIdleTimer (snd (updateIdle now s))
        \<and> \<not> fst (updateIdle now' (run (snd (updateIdle now s)) rs2))"
    if f: "fst (updateIdle now s)"
  proof -
    from f have "stopIdleTimer (snd (updateIdle now s))" by (rule updateIdle_stop)
    moreover from this have "stopIdleTimer (run (snd (updateIdle now s)) rs2)"
      by (rule run_stop_keep)
    ultimately show ?thesis by (simp add: updateIdle_spent)
  qed
  have E: "since s (idle r s) = [Emit On5SecondsPassed]"
    if "startIdleTimer s \<and> \<not> stopIdleTimer s \<and> idleTimer s + 5000 \<le> ucast (millisNow r)"
    using that by (simp add: idle_def updateIdle_def since_def prims)
  from A B D E show ?thesis by blast
qed

theorem idle_fires_once_witness:
  "zumoState (run (setupSketch 0 0) [pressed]) = Start
   \<and> zumoState (loop quiet (run (setupSketch 0 0) [pressed])) = Idle
   \<and> On5SecondsPassed \<in> set (emits (since
         (run (loop quiet (run (setupSketch 0 0) [pressed])) [quiet])
         (loop later (run (loop quiet (run (setupSketch 0 0) [pressed])) [quiet]))))
   \<and> uint (millisArm quiet) + 5000 \<le> uint (millisNow later)
   \<and> fst (updateIdle 6000 (run (setupSketch 0 0) [pressed, quiet]))
   \<and> \<not> fst (updateIdle 7000
         (run (snd (updateIdle 6000 (run (setupSketch 0 0) [pressed, quiet]))) [quiet]))
   \<and> since (run (setupSketch 0 0) [pressed, quiet])
         (idle later (run (setupSketch 0 0) [pressed, quiet])) = [Emit On5SecondsPassed]
   \<and> count_list (emits (effects (run (setupSketch 0 0) [pressed, quiet, later, quiet])))
         On5SecondsPassed = 1"
  using idle_fires_once [where ?t1.0 = 0 and ?t2.0 = 0 and rs = "[pressed]"
      and ?r1.0 = quiet and ?rs1.0 = "[quiet]" and r = later and now = 6000
      and s = "run (setupSketch 0 0) [pressed, quiet]" and now' = 7000
      and ?rs2.0 = "[quiet]"]
  by (simp add: concrete since_def)

text \<open>
  C3. The sketch where the timer is armed late: the button is pressed and the
  first Idle cycle reads the clock at 4294966296 ms, one second before the
  counter wraps at \<open>2 ^ 32\<close>. The stored value plus
  5000 is a 64-bit number that the 32-bit clock never reaches, not even
  after it wraps. Whatever readings follow, the machine is still in
  \<^verbatim>\<open>Idle\<close> with the timer armed and \<^verbatim>\<open>On5SecondsPassed\<close> has not been
  assigned once.
\<close>

theorem idle_armed_late_never_fires:
  "uint (millisArm lateArm) = 2 ^ 32 - 1000
   \<and> zumoState (run (setupSketch 0 0) ([pressed, lateArm] @ rs)) = Idle
   \<and> startIdleTimer (run (setupSketch 0 0) ([pressed, lateArm] @ rs))
   \<and> count_list (emits (effects (run (setupSketch 0 0) ([pressed, lateArm] @ rs))))
        On5SecondsPassed = 0"
proof -
  have stuck: "run (setupSketch 0 0) ([pressed, lateArm] @ rs) =
      run (setupSketch 0 0) [pressed, lateArm]"
    by (simp only: run_append armed_late_run)
  have clock: "uint (millisArm lateArm) = 2 ^ 32 - 1000"
    by (simp add: lateArm_def quiet_def)
  show ?thesis
    unfolding stuck armed_late using clock by simp
qed

section \<open>Sensor priority in the state functions\<close>

text \<open>
  C2. In \<^verbatim>\<open>search\<close> the event follows the order edge, front, left, right:
  when \<^verbatim>\<open>QTRUpdate\<close> returns an index the only event assigned is
  \<^verbatim>\<open>OnEdge\<close>, whatever the sonars read; without an edge, a front range in
  \<open>(0, SONAR_THRESHOLD)\<close> gives \<^verbatim>\<open>OnFind\<close> alone, whatever left and right
  read; without either, a left range in that interval gives \<^verbatim>\<open>OnLeft\<close>
  alone, whatever the right reads; and only then a right range in the
  interval gives \<^verbatim>\<open>OnRight\<close>. A pass of \<^verbatim>\<open>doState\<close> assigns
  \<^verbatim>\<open>OnLeft\<close> or \<^verbatim>\<open>OnRight\<close> only when the state is \<^verbatim>\<open>Search\<close>.
\<close>

theorem search_priority:
  "(fst (QTRUpdate r s) > - 1 \<longrightarrow>
      emits (since s (search r s)) = [OnEdge] \<and> zumoEvent (search r s) = OnEdge)
   \<and> (\<not> fst (QTRUpdate r s) > - 1
        \<and> 0 < sonarCm r \<and> sonarCm r < SONAR_THRESHOLD \<longrightarrow>
      emits (since s (search r s)) = [OnFind] \<and> zumoEvent (search r s) = OnFind)
   \<and> (\<not> fst (QTRUpdate r s) > - 1
        \<and> \<not> (0 < sonarCm r \<and> sonarCm r < SONAR_THRESHOLD)
        \<and> 0 < sonarLeftCm r \<and> sonarLeftCm r < SONAR_THRESHOLD \<longrightarrow>
      emits (since s (search r s)) = [OnLeft] \<and> zumoEvent (search r s) = OnLeft)
   \<and> (\<not> fst (QTRUpdate r s) > - 1
        \<and> \<not> (0 < sonarCm r \<and> sonarCm r < SONAR_THRESHOLD)
        \<and> \<not> (0 < sonarLeftCm r \<and> sonarLeftCm r < SONAR_THRESHOLD)
        \<and> 0 < sonarRightCm r \<and> sonarRightCm r < SONAR_THRESHOLD \<longrightarrow>
      emits (since s (search r s)) = [OnRight] \<and> zumoEvent (search r s) = OnRight)
   \<and> (OnLeft \<in> set (emits (since s (doState r s)))
        \<or> OnRight \<in> set (emits (since s (doState r s))) \<longrightarrow>
      zumoState s = Search)"
proof -
  have edge: "emits (since s (search r s)) = [OnEdge] \<and> zumoEvent (search r s) = OnEdge"
    if "fst (QTRUpdate r s) > - 1"
    using that by (simp add: since_search_edge)
  have clear: "emits (since s (search r s)) =
      (if sonarCm r < SONAR_THRESHOLD \<and> sonarCm r > 0 then [OnFind]
       else if sonarLeftCm r < SONAR_THRESHOLD \<and> sonarLeftCm r > 0 then [OnLeft]
       else if sonarRightCm r < SONAR_THRESHOLD \<and> sonarRightCm r > 0 then [OnRight]
       else [])"
    if "\<not> fst (QTRUpdate r s) > - 1"
    using that by (simp add: since_search_clear)
  have only: "zumoState s = Search"
    if "OnLeft \<in> set (emits (since s (doState r s)))
        \<or> OnRight \<in> set (emits (since s (doState r s)))"
    using that doState_range_events(2,3) [of s r] by blast
  from edge clear only show ?thesis
    by (simp add: search_event_clear)
qed

theorem search_priority_witness:
  "fst (QTRUpdate allSeen boot) > - 1
   \<and> 0 < sonarCm allSeen \<and> sonarCm allSeen < SONAR_THRESHOLD
   \<and> emits (since boot (search allSeen boot)) = [OnEdge]
   \<and> 0 < sonarLeftCm frontSeen \<and> sonarLeftCm frontSeen < SONAR_THRESHOLD
   \<and> emits (since boot (search frontSeen boot)) = [OnFind]
   \<and> 0 < sonarRightCm leftSeen \<and> sonarRightCm leftSeen < SONAR_THRESHOLD
   \<and> emits (since boot (search leftSeen boot)) = [OnLeft]
   \<and> emits (since boot (search rightSeen boot)) = [OnRight]
   \<and> OnLeft \<in> set (emits (since (run (setupSketch 0 0) [pressed, quiet, later, quiet])
         (doState leftSeen (run (setupSketch 0 0) [pressed, quiet, later, quiet]))))
   \<and> zumoState (run (setupSketch 0 0) [pressed, quiet, later, quiet]) = Search"
  using search_priority [of allSeen boot] search_priority [of frontSeen boot]
    search_priority [of leftSeen boot] search_priority [of rightSeen boot]
    search_priority [of leftSeen "run (setupSketch 0 0) [pressed, quiet, later, quiet]"]
  by (simp add: concrete since_def)

text \<open>
  C5. A pass of \<^verbatim>\<open>doState\<close> assigns \<^verbatim>\<open>OnFind\<close> only in \<^verbatim>\<open>Search\<close>,
  \<^verbatim>\<open>TurnLeft\<close> or \<^verbatim>\<open>TurnRight\<close> and only when the front range of that
  pass is strictly between 0 and \<^verbatim>\<open>SONAR_THRESHOLD\<close>; it assigns
  \<^verbatim>\<open>OnLeft\<close> (\<^verbatim>\<open>OnRight\<close>) only in \<^verbatim>\<open>Search\<close> and only when the left
  (right) range is strictly between 0 and \<^verbatim>\<open>SONAR_THRESHOLD\<close>. The same
  holds of \<^verbatim>\<open>search\<close>, \<^verbatim>\<open>turnLeft\<close> and \<^verbatim>\<open>turnRight\<close> called in any
  state. So a range of 0, the value for no echo, never gives one of these
  events.
\<close>

theorem range_events_need_echo:
  "(OnFind \<in> set (emits (since s (doState r s))) \<longrightarrow>
      (zumoState s = Search \<or> zumoState s = TurnLeft \<or> zumoState s = TurnRight)
      \<and> 0 < sonarCm r \<and> sonarCm r < SONAR_THRESHOLD)
   \<and> (OnLeft \<in> set (emits (since s (doState r s))) \<longrightarrow>
      zumoState s = Search \<and> 0 < sonarLeftCm r \<and> sonarLeftCm r < SONAR_THRESHOLD)
   \<and> (OnRight \<in> set (emits (since s (doState r s))) \<longrightarrow>
      zumoState s = Search \<and> 0 < sonarRightCm r \<and> sonarRightCm r < SONAR_THRESHOLD)
   \<and> (OnFind \<in> set (emits (since s (search r s))) \<longrightarrow>
      0 < sonarCm r \<and> sonarCm r < SONAR_THRESHOLD)
   \<and> (OnLeft \<in> set (emits (since s (search r s))) \<longrightarrow>
      0 < sonarLeftCm r \<and> sonarLeftCm r < SONAR_THRESHOLD)
   \<and> (OnRight \<in> set (emits (since s (search r s))) \<longrightarrow>
      0 < sonarRightCm r \<and> sonarRightCm r < SONAR_THRESHOLD)
   \<and> (OnFind \<in> set (emits (since s (turnLeft r s))) \<longrightarrow>
      0 < sonarCm r \<and> sonarCm r < SONAR_THRESHOLD)
   \<and> (OnFind \<in> set (emits (since s (turnRight r s))) \<longrightarrow>
      0 < sonarCm r \<and> sonarCm r < SONAR_THRESHOLD)"
proof -
  have srch: "(OnFind \<in> set (emits (since s (search r s))) \<longrightarrow>
        0 < sonarCm r \<and> sonarCm r < SONAR_THRESHOLD)
      \<and> (OnLeft \<in> set (emits (since s (search r s))) \<longrightarrow>
        0 < sonarLeftCm r \<and> sonarLeftCm r < SONAR_THRESHOLD)
      \<and> (OnRight \<in> set (emits (since s (search r s))) \<longrightarrow>
        0 < sonarRightCm r \<and> sonarRightCm r < SONAR_THRESHOLD)"
    by (cases "fst (QTRUpdate r s) > - 1")
       (auto simp add: since_search_edge since_search_clear split: if_splits)
  have turn: "(OnFind \<in> set (emits (since s (turnLeft r s))) \<longrightarrow>
        0 < sonarCm r \<and> sonarCm r < SONAR_THRESHOLD)
      \<and> (OnFind \<in> set (emits (since s (turnRight r s))) \<longrightarrow>
        0 < sonarCm r \<and> sonarCm r < SONAR_THRESHOLD)"
    by (auto simp add: since_turnLeft since_turnRight split: if_splits)
  from srch turn doState_range_events(1,2,3) [of s r] show ?thesis
    by blast
qed

theorem range_events_need_echo_witness:
  "OnFind \<in> set (emits (since (run (setupSketch 0 0) [pressed, quiet, later, quiet])
       (doState frontSeen (run (setupSketch 0 0) [pressed, quiet, later, quiet]))))
   \<and> zumoState (run (setupSketch 0 0) [pressed, quiet, later, quiet]) = Search
   \<and> 0 < sonarCm frontSeen \<and> sonarCm frontSeen < SONAR_THRESHOLD
   \<and> OnLeft \<in> set (emits (since boot (search leftSeen boot)))
   \<and> 0 < sonarLeftCm leftSeen \<and> sonarLeftCm leftSeen < SONAR_THRESHOLD
   \<and> OnRight \<in> set (emits (since boot (search rightSeen boot)))
   \<and> 0 < sonarRightCm rightSeen \<and> sonarRightCm rightSeen < SONAR_THRESHOLD
   \<and> OnFind \<in> set (emits (since boot (turnLeft frontSeen boot)))
   \<and> OnFind \<in> set (emits (since boot (turnRight frontSeen boot)))
   \<and> sonarCm quiet = 0
   \<and> OnFind \<notin> set (emits (since boot (search quiet boot)))"
  using range_events_need_echo [of "run (setupSketch 0 0) [pressed, quiet, later, quiet]"
      frontSeen]
    range_events_need_echo [of boot leftSeen] range_events_need_echo [of boot rightSeen]
    range_events_need_echo [of boot frontSeen] range_events_need_echo [of boot quiet]
  by (simp add: concrete since_def)

text \<open>
  C8, as stated, fails in its middle part. After a pass of \<^verbatim>\<open>search\<close>
  without an edge the motors run at \<open>(100, 200)\<close>. In the next pass channel 2
  reads 100, below the threshold: \<^verbatim>\<open>search\<close> assigns \<^verbatim>\<open>OnEdge\<close> and
  returns, but it hands no command to the motors, which keep \<open>(100, 200)\<close>.
\<close>

theorem search_edge_keeps_motors_counterexample:
  "qtrRead edgeSeen 2 < QTRTHRESHOLD
   \<and> fst (QTRUpdate edgeSeen (run (setupSketch 0 0) [pressed, quiet, later, quiet])) = 2
   \<and> zumoState (run (setupSketch 0 0) [pressed, quiet, later, quiet]) = Search
   \<and> zumoEvent (search edgeSeen (run (setupSketch 0 0) [pressed, quiet, later, quiet]))
       = OnEdge
   \<and> commands (since (run (setupSketch 0 0) [pressed, quiet, later, quiet])
       (search edgeSeen (run (setupSketch 0 0) [pressed, quiet, later, quiet]))) = []
   \<and> motors (search edgeSeen (run (setupSketch 0 0) [pressed, quiet, later, quiet]))
       = (100, 200)
   \<and> motors (run (setupSketch 0 0) [pressed, quiet, later, quiet, edgeSeen]) = (100, 200)"
  by (simp add: concrete since_def)

text \<open>
  C8, amended. Whenever some reflectance channel reads below the threshold,
  \<^verbatim>\<open>search\<close> reads the reflectance array, assigns \<^verbatim>\<open>OnEdge\<close> and
  returns at once: it polls no sonar and gives no motor command, so the
  motors keep the speeds of the last command.
\<close>

theorem search_edge_returns_at_once:
  assumes "i < NUM_SENSORS" and "qtrRead r i < QTRTHRESHOLD"
  shows "since s (search r s) = [ReadQTR, Emit OnEdge]
    \<and> zumoEvent (search r s) = OnEdge
    \<and> pings (since s (search r s)) = []
    \<and> commands (since s (search r s)) = []
    \<and> motors (search r s) = motors s"
proof -
  from assms have "fst (QTRUpdate r s) > - 1"
    unfolding edge_present by blast
  then show ?thesis
    by (simp add: since_search_edge)
qed

theorem search_edge_returns_at_once_witness:
  "(2::nat) < NUM_SENSORS \<and> qtrRead allSeen 2 < QTRTHRESHOLD
   \<and> since boot (search allSeen boot) = [ReadQTR, Emit OnEdge]
   \<and> motors (search allSeen boot) = motors boot"
  using search_edge_returns_at_once [of 2 allSeen boot]
  by (simp add: concrete)

section \<open>The recovery manoeuvre\<close>

text \<open>
  C6. \<^verbatim>\<open>backUp\<close> has no loop and its delays add up to at most one second; for
  every state, and so whichever comparison holds, \<^verbatim>\<open>OnSafe\<close> is the one
  event it assigns and the assignment is the last thing it does. When the
  state is \<^verbatim>\<open>BackUp\<close>, the next \<^verbatim>\<open>updateState\<close> takes the machine to
  \<^verbatim>\<open>Search\<close>.
\<close>

theorem backUp_ends_with_OnSafe:
  "zumoEvent (backUp s) = OnSafe
   \<and> emits (since s (backUp s)) = [OnSafe]
   \<and> last (effects (backUp s)) = Emit OnSafe
   \<and> waits (since s (backUp s)) \<le> 1000
   \<and> (zumoState s = BackUp \<longrightarrow>
        doState r s = backUp s
        \<and> zumoState (updateState (updateEvent (doState r s))) = Search
        \<and> zumoState (loop r' (doState r s)) = Search)"
proof -
  have e: "emits (since s (backUp s)) = [OnSafe]"
    by (simp add: since_backUp)
  have l: "last (effects (backUp s)) = Emit OnSafe"
    by (subst backUp_effects) (simp add: since_backUp)
  have w: "waits (since s (backUp s)) \<le> 1000"
    by (simp add: since_backUp)
  have n: "doState r s = backUp s
        \<and> zumoState (updateState (updateEvent (doState r s))) = Search
        \<and> zumoState (loop r' (doState r s)) = Search"
    if "zumoState s = BackUp"
    using that
    by (simp add: doState_def loop_state updateEvent_def updateState_zumoState
        spec_next_def spec_table_def)
  have v: "zumoEvent (backUp s) = OnSafe"
    by simp
  from v e l w n show ?thesis by blast
qed

theorem backUp_ends_with_OnSafe_witness:
  "zumoState (updateState (updateEvent
       (run (setupSketch 0 0) [pressed, quiet, later, edgeSeen]))) = BackUp
   \<and> zumoState (updateState (updateEvent (doState quiet (updateState (updateEvent
       (run (setupSketch 0 0) [pressed, quiet, later, edgeSeen])))))) = Search
   \<and> zumoState (run (setupSketch 0 0) [pressed, quiet, later, edgeSeen, quiet, quiet])
       = Search"
  using backUp_ends_with_OnSafe [where r = quiet and r' = quiet
      and s = "updateState (updateEvent
        (run (setupSketch 0 0) [pressed, quiet, later, edgeSeen]))"]
  by (simp add: concrete)

text \<open>
  C7. The sketch at a state where the first reflectance reading is below the
  last one (100 against 1000, after an edge under channel 0): the pass in
  \<^verbatim>\<open>BackUp\<close> runs the sequence of the less-than branch and then the
  sequence of the \<^verbatim>\<open>else\<close> branch, two of the three, because the
  \<^verbatim>\<open>else\<close> belongs to the second \<^verbatim>\<open>if\<close> only.
\<close>

theorem backUp_less_runs_two_sequences:
  "sensorValues (run (setupSketch 0 0) [pressed, quiet, later, edgeFirst])
     = [100, 1000, 1000, 1000]
   \<and> zumoState (updateState (updateEvent
       (run (setupSketch 0 0) [pressed, quiet, later, edgeFirst]))) = BackUp
   \<and> since (run (setupSketch 0 0) [pressed, quiet, later, edgeFirst])
       (loop quiet (run (setupSketch 0 0) [pressed, quiet, later, edgeFirst])) =
     [SetSpeeds (- 400) (- 200), Delay 200, SetSpeeds (- 300) 300, Delay 300,
      SetSpeeds (- 400) (- 400), Delay 200, SetSpeeds (- 300) 300, Delay 300,
      Emit OnSafe]"
  by (simp add: concrete since_def)

section \<open>Events across passes\<close>

text \<open>
  C4, as stated, fails. The button is pressed in the first pass. Neither the
  second nor the third pass assigns an event, yet at the point where the
  third pass applies \<^verbatim>\<open>updateState\<close> the event is still
  \<^verbatim>\<open>OnButtonPress\<close>, not \<^verbatim>\<open>None\<close>.
\<close>

theorem event_is_not_fresh_counterexample:
  "emits (since (run (setupSketch 0 0) [pressed])
       (loop quiet (run (setupSketch 0 0) [pressed]))) = []
   \<and> emits (since (run (setupSketch 0 0) [pressed, quiet])
       (loop quiet (run (setupSketch 0 0) [pressed, quiet]))) = []
   \<and> zumoEvent (updateEvent (run (setupSketch 0 0) [pressed, quiet])) = OnButtonPress
   \<and> zumoEvent (updateEvent (run (setupSketch 0 0) [pressed, quiet])) \<noteq> NoneEv"
  by (simp add: concrete since_def)

text \<open>
  C4, amended. The event is not reset between passes: \<^verbatim>\<open>updateEvent\<close>
  changes nothing, so at the point where \<^verbatim>\<open>updateState\<close> is applied the
  event is the one a state function assigned last. No state function ever
  assigns \<^verbatim>\<open>None\<close>, so the event is \<^verbatim>\<open>None\<close> exactly as long as no
  state function has assigned an event since \<^verbatim>\<open>initialize()\<close>. A pass that
  assigns no event leaves the event as it was.
\<close>

theorem event_persists:
  "updateEvent s = s
   \<and> zumoEvent (updateEvent (run (setupSketch t1 t2) rs)) =
       lastEmit (effects (run (setupSketch t1 t2) rs))
   \<and> NoneEv \<notin> set (emits (effects (run (setupSketch t1 t2) rs)))
   \<and> NoneEv \<notin> set (emits (since s (doState r s)))
   \<and> (zumoEvent (updateEvent (run (setupSketch t1 t2) rs)) = NoneEv)
       = (emits (effects (run (setupSketch t1 t2) rs)) = [])
   \<and> (emits (since s (loop r s)) = [] \<longrightarrow>
        zumoEvent (updateEvent (loop r s)) = zumoEvent s)"
  using run_no_NoneEv [of t1 t2 rs] run_event_NoneEv [of t1 t2 rs]
    doState_range_events(5) [of s r]
  by (simp add: updateEvent_def run_lastEmit loop_event)

theorem event_persists_witness:
  "emits (since (run (setupSketch 0 0) [pressed])
       (loop quiet (run (setupSketch 0 0) [pressed]))) = []
   \<and> zumoEvent (run (setupSketch 0 0) [pressed]) = OnButtonPress
   \<and> zumoEvent (updateEvent (loop quiet (run (setupSketch 0 0) [pressed]))) = OnButtonPress
   \<and> emits (effects (run (setupSketch 0 0) [quiet, quiet])) = []
   \<and> zumoEvent (updateEvent (run (setupSketch 0 0) [quiet, quiet])) = NoneEv
   \<and> emits (effects (run (setupSketch 0 0) [pressed, quiet])) = [OnButtonPress]"
  using event_persists [where s = "run (setupSketch 0 0) [pressed]" and r = quiet
      and ?t1.0 = 0 and ?t2.0 = 0 and rs = "[quiet, quiet]"]
  by (simp add: concrete since_def)

text \<open>
  C9. \<^verbatim>\<open>updateEvent\<close> assigns nothing and no pass of \<^verbatim>\<open>doState\<close>
  assigns \<^verbatim>\<open>OnLost\<close>; in every execution from \<^verbatim>\<open>setup()\<close> the event
  \<^verbatim>\<open>OnLost\<close> has never been assigned and the event variable never holds
  it. So from \<^verbatim>\<open>Chase\<close> the next pass leads to \<^verbatim>\<open>BackUp\<close> when the
  event is \<^verbatim>\<open>OnEdge\<close> and stays in \<^verbatim>\<open>Chase\<close> otherwise; it never
  leads to \<^verbatim>\<open>Search\<close>.
\<close>

theorem OnLost_never_assigned:
  "updateEvent s = s
   \<and> OnLost \<notin> set (emits (since s (doState r s)))
   \<and> OnLost \<notin> set (emits (effects (run (setupSketch t1 t2) rs)))
   \<and> zumoEvent (run (setupSketch t1 t2) rs) \<noteq> OnLost
   \<and> (zumoState (run (setupSketch t1 t2) rs) = Chase \<longrightarrow>
        zumoState (loop r' (run (setupSketch t1 t2) rs)) =
          (if zumoEvent (run (setupSketch t1 t2) rs) = OnEdge then BackUp else Chase))"
proof -
  have "zumoState (loop r' (run (setupSketch t1 t2) rs)) =
      (if zumoEvent (run (setupSketch t1 t2) rs) = OnEdge then BackUp else Chase)"
    if "zumoState (run (setupSketch t1 t2) rs) = Chase"
    using that run_event_not_OnLost [of t1 t2 rs]
    by (simp add: loop_state chase_exit)
  then show ?thesis
    using run_no_OnLost [of t1 t2 rs] run_event_not_OnLost [of t1 t2 rs]
      doState_range_events(4) [of s r]
    by (simp add: updateEvent_def)
qed

theorem OnLost_never_assigned_witness:
  "zumoState (run (setupSketch 0 0) [pressed, quiet, later, frontSeen, quiet]) = Chase
   \<and> zumoEvent (run (setupSketch 0 0) [pressed, quiet, later, frontSeen, quiet]) = OnFind
   \<and> zumoState (loop edgeSeen
        (run (setupSketch 0 0) [pressed, quiet, later, frontSeen, quiet])) = Chase
   \<and> zumoState (run (setupSketch 0 0) [pressed, quiet, later, frontSeen, quiet, edgeSeen])
        = Chase
   \<and> zumoEvent (run (setupSketch 0 0) [pressed, quiet, later, frontSeen, quiet, edgeSeen])
        = OnEdge
   \<and> zumoState (loop quiet
        (run (setupSketch 0 0) [pressed, quiet, later, frontSeen, quiet, edgeSeen])) = BackUp"
  using OnLost_never_assigned [where ?t1.0 = 0 and ?t2.0 = 0
      and rs = "[pressed, quiet, later, frontSeen, quiet]" and r' = edgeSeen]
    OnLost_never_assigned [where ?t1.0 = 0 and ?t2.0 = 0
      and rs = "[pressed, quiet, later, frontSeen, quiet, edgeSeen]" and r' = quiet]
  by (simp add: concrete)

end
